theory Spec2Isabelle
  imports Main
begin

section \<open>JavaScript values and strings\<close>

text \<open>
  The response pipeline handles JSON-like data: request bodies, handler results and
  validation messages. A value is one of the JavaScript primitives, an array or a plain
  object. A plain object is the list of its own enumerable string-keyed entries, with
  distinct keys; an object read from a request is listed as \<^verbatim>\<open>Object.entries\<close>
  lists it, an object built by assignments in the order of insertion (JavaScript
  enumerates keys that are array indices first; nothing below depends on the position of
  a key). The numbers are the integers, strings are lists of code units below 256.
\<close>

datatype jsval =
    JUndefined
  | JNull
  | JBool bool
  | JNum int
  | JStr string
  | JArr "jsval list"
  | JObj "(string \<times> jsval) list"

datatype js_error = TypeError

text \<open>\<^verbatim>\<open>typeof v === 'object' && v !== null\<close>\<close>

definition is_object :: "jsval \<Rightarrow> bool" where
  "is_object v = (case v of JArr _ \<Rightarrow> True | JObj _ \<Rightarrow> True | _ \<Rightarrow> False)"

text \<open>
  The names every ordinary object inherits from \<^verbatim>\<open>Object.prototype\<close>. Reading one
  of them from an object that has no own entry of that name yields the inherited function
  (for \<^verbatim>\<open>__proto__\<close>: the prototype object), which is truthy and is not an array.
\<close>

definition object_prototype_keys :: "string list" where
  "object_prototype_keys =
     [''constructor'', ''__defineGetter__'', ''__defineSetter__'', ''hasOwnProperty'',
      ''__lookupGetter__'', ''__lookupSetter__'', ''isPrototypeOf'',
      ''propertyIsEnumerable'', ''toString'', ''valueOf'', ''__proto__'',
      ''toLocaleString'']"

text \<open>
  The assignment \<^verbatim>\<open>obj[key] = v\<close> on an ordinary object: an own entry is overwritten
  in place, a new key is appended. The key \<^verbatim>\<open>__proto__\<close> is the exception: the
  assignment runs the setter inherited from \<^verbatim>\<open>Object.prototype\<close> and creates no own
  entry. (With an object as the value the setter replaces the prototype, which is not
  part of a value here; with any other value it does nothing.)
\<close>

definition obj_set :: "(string \<times> 'v) list \<Rightarrow> string \<Rightarrow> 'v \<Rightarrow> (string \<times> 'v) list" where
  "obj_set obj key v =
     (if key = ''__proto__'' then obj
      else if key \<in> fst ` set obj
        then map (\<lambda>(k, w). if k = key then (k, v) else (k, w)) obj
      else obj @ [(key, v)])"

text \<open>\<^verbatim>\<open>String.prototype.toLowerCase\<close> on code units below 256.\<close>

definition toLowerChar :: "char \<Rightarrow> char" where
  "toLowerChar c =
     (let n = (of_char c :: nat)
      in if (65 \<le> n \<and> n \<le> 90) \<or> (192 \<le> n \<and> n \<le> 222 \<and> n \<noteq> 215)
         then char_of (n + 32) else c)"

definition toLowerCase :: "string \<Rightarrow> string" where
  "toLowerCase s = map toLowerChar s"

text \<open>\<^verbatim>\<open>s.startsWith(p)\<close> and \<^verbatim>\<open>s.includes(sub)\<close>\<close>

definition startsWith :: "string \<Rightarrow> string \<Rightarrow> bool" where
  "startsWith s p = (take (length p) s = p)"

fun includes_str :: "string \<Rightarrow> string \<Rightarrow> bool" where
  "includes_str [] sub = (sub = [])"
| "includes_str (c # cs) sub = (startsWith (c # cs) sub \<or> includes_str cs sub)"

text \<open>\<^verbatim>\<open>s.split(d)\<close> for a one-character separator: the result is never empty.\<close>

fun split_str :: "char \<Rightarrow> string \<Rightarrow> string list" where
  "split_str d [] = [[]]"
| "split_str d (c # cs) =
     (if c = d then [] # split_str d cs
      else (case split_str d cs of
              [] \<Rightarrow> [[c]]
            | t # ts \<Rightarrow> (c # t) # ts))"

text \<open>White space and line terminators below 256, as \<^verbatim>\<open>trim\<close> removes them.\<close>

definition is_whitespace :: "char \<Rightarrow> bool" where
  "is_whitespace c =
     (c \<in> set [CHR 0x09, CHR 0x0A, CHR 0x0B, CHR 0x0C, CHR 0x0D, CHR 0x20, CHR 0xA0])"

definition trim :: "string \<Rightarrow> string" where
  "trim s = rev (dropWhile is_whitespace (rev (dropWhile is_whitespace s)))"

text \<open>\<^verbatim>\<open>xs.join(sep)\<close> on an array of strings.\<close>

fun join :: "string \<Rightarrow> string list \<Rightarrow> string" where
  "join sep [] = []"
| "join sep [x] = x"
| "join sep (x # y # ys) = x @ sep @ join sep (y # ys)"

text \<open>
  How a number prints (\<^verbatim>\<open>String(n)\<close>, a template literal) is the runtime's
  business: every function that prints one takes the conversion as its parameter
  \<open>Number_toString\<close>.

  \<^verbatim>\<open>String(v)\<close> for any value, and \<^verbatim>\<open>xs.join(sep)\<close> on an array of values, which
  applies it to the elements: \<^verbatim>\<open>null\<close> and \<^verbatim>\<open>undefined\<close> elements give the
  empty string, a nested array is joined with a comma. The conversion of an object looks
  up \<^verbatim>\<open>toString\<close>: without an own entry of that name it finds the inherited
  method and the result is \<^verbatim>\<open>[object Object]\<close>; an own entry is not callable (a
  value here never is), the inherited \<^verbatim>\<open>valueOf\<close> returns the object itself or an
  own \<^verbatim>\<open>valueOf\<close> entry is not callable either, and the conversion throws.
\<close>

fun String_value :: "(int \<Rightarrow> string) \<Rightarrow> jsval \<Rightarrow> js_error + string"
  and join_element :: "(int \<Rightarrow> string) \<Rightarrow> jsval \<Rightarrow> js_error + string"
  and join_elements :: "(int \<Rightarrow> string) \<Rightarrow> string \<Rightarrow> jsval list \<Rightarrow> js_error + string"
where
  "String_value Number_toString JUndefined = Inr ''undefined''"
| "String_value Number_toString JNull = Inr ''null''"
| "String_value Number_toString (JBool b) = Inr (if b then ''true'' else ''false'')"
| "String_value Number_toString (JNum n) = Inr (Number_toString n)"
| "String_value Number_toString (JStr s) = Inr s"
| "String_value Number_toString (JArr xs) = join_elements Number_toString '','' xs"
| "String_value Number_toString (JObj es) =
     (if ''toString'' \<in> fst ` set es then Inl TypeError else Inr ''[object Object]'')"
| "join_element Number_toString JUndefined = Inr []"
| "join_element Number_toString JNull = Inr []"
| "join_element Number_toString (JBool b) = String_value Number_toString (JBool b)"
| "join_element Number_toString (JNum n) = String_value Number_toString (JNum n)"
| "join_element Number_toString (JStr s) = String_value Number_toString (JStr s)"
| "join_element Number_toString (JArr xs) = String_value Number_toString (JArr xs)"
| "join_element Number_toString (JObj es) = String_value Number_toString (JObj es)"
| "join_elements Number_toString sep [] = Inr []"
| "join_elements Number_toString sep [x] = join_element Number_toString x"
| "join_elements Number_toString sep (x # y # ys) =
     (case join_element Number_toString x of
        Inl e \<Rightarrow> Inl e
      | Inr first \<Rightarrow>
          (case join_elements Number_toString sep (y # ys) of
             Inl e \<Rightarrow> Inl e
           | Inr rest \<Rightarrow> Inr (first @ sep @ rest)))"

text \<open>\<^verbatim>\<open>a || b\<close> on an optional string: absent and empty are both falsy.\<close>

definition or_else :: "string option \<Rightarrow> string \<Rightarrow> string" where
  "or_else a b = (case a of None \<Rightarrow> b | Some s \<Rightarrow> if s = [] then b else s)"


section \<open>The masking utility (mask.util.ts)\<close>

definition DEFAULT_SENSITIVE_FIELDS :: "string list" where
  "DEFAULT_SENSITIVE_FIELDS =
     [''password'', ''passwordConfirm'', ''currentPassword'', ''newPassword'', ''token'',
      ''accessToken'', ''refreshToken'', ''secret'', ''apiKey'', ''api_key'',
      ''authorization'', ''creditCard'', ''credit_card'', ''cardNumber'', ''card_number'',
      ''cvv'', ''ssn'', ''socialSecurityNumber'', ''pin'', ''otp'', ''verificationCode'',
      ''privateKey'', ''private_key'']"

definition MASK_STRING :: string where
  "MASK_STRING = ''***MASKED***''"

text \<open>
  \<open>mask_items\<close> is the \<^verbatim>\<open>data.map\<close> over an array, \<open>mask_entries\<close> the
  \<^verbatim>\<open>for ... of Object.entries(data)\<close> loop with \<^verbatim>\<open>maskedData\<close> as its state.
\<close>

fun maskSensitiveData :: "jsval \<Rightarrow> string list \<Rightarrow> jsval"
  and mask_items :: "jsval list \<Rightarrow> string list \<Rightarrow> jsval list"
  and mask_entries ::
    "(string \<times> jsval) list \<Rightarrow> string list \<Rightarrow> (string \<times> jsval) list \<Rightarrow> (string \<times> jsval) list"
where
  "maskSensitiveData (JArr items) sensitiveFields = JArr (mask_items items sensitiveFields)"
| "maskSensitiveData (JObj entries) sensitiveFields =
     JObj (mask_entries entries sensitiveFields [])"
| "maskSensitiveData data sensitiveFields = data"
| "mask_items [] sensitiveFields = []"
| "mask_items (item # items) sensitiveFields =
     (if is_object item then maskSensitiveData item sensitiveFields else item)
       # mask_items items sensitiveFields"
| "mask_entries [] sensitiveFields maskedData = maskedData"
| "mask_entries ((key, v) # entries) sensitiveFields maskedData =
     (let lowerSensitiveFields = map toLowerCase sensitiveFields;
          lowerKey = toLowerCase key
      in if lowerKey \<in> set lowerSensitiveFields
           then mask_entries entries sensitiveFields
                  (obj_set maskedData key (JStr MASK_STRING))
         else if is_object v
           then mask_entries entries sensitiveFields
                  (obj_set maskedData key (maskSensitiveData v sensitiveFields))
         else mask_entries entries sensitiveFields (obj_set maskedData key v))"

text \<open>What one entry of an object becomes: the three branches of the loop body.\<close>

definition is_sensitive :: "string list \<Rightarrow> string \<Rightarrow> bool" where
  "is_sensitive sensitiveFields key = (toLowerCase key \<in> set (map toLowerCase sensitiveFields))"

definition masked_value :: "string list \<Rightarrow> string \<Rightarrow> jsval \<Rightarrow> jsval" where
  "masked_value sensitiveFields key v =
     (if is_sensitive sensitiveFields key then JStr MASK_STRING
      else if is_object v then maskSensitiveData v sensitiveFields
      else v)"


text \<open>
  A value holds no unmasked secret when every entry with a sensitive key, at every depth
  reached through arrays and objects, has the marker as its value.
\<close>

fun no_unmasked :: "string list \<Rightarrow> jsval \<Rightarrow> bool"
  and no_unmasked_items :: "string list \<Rightarrow> jsval list \<Rightarrow> bool"
  and no_unmasked_entries :: "string list \<Rightarrow> (string \<times> jsval) list \<Rightarrow> bool"
where
  "no_unmasked fs (JArr items) = no_unmasked_items fs items"
| "no_unmasked fs (JObj entries) = no_unmasked_entries fs entries"
| "no_unmasked fs v = True"
| "no_unmasked_items fs [] = True"
| "no_unmasked_items fs (item # items) = (no_unmasked fs item \<and> no_unmasked_items fs items)"
| "no_unmasked_entries fs [] = True"
| "no_unmasked_entries fs ((key, v) # entries) =
     ((if is_sensitive fs key then v = JStr MASK_STRING else no_unmasked fs v)
      \<and> no_unmasked_entries fs entries)"


section \<open>The error categorizer (error-category.enum.ts)\<close>

datatype ErrorCategory =
    VALIDATION | AUTHENTICATION | AUTHORIZATION | NOT_FOUND | DATABASE
  | EXTERNAL_SERVICE | RATE_LIMIT | BUSINESS_LOGIC | INTERNAL | UNKNOWN

definition getErrorCategory :: "int \<Rightarrow> string option \<Rightarrow> ErrorCategory" where
  "getErrorCategory statusCode errorMessage =
     (if statusCode = 400 then VALIDATION
      else if statusCode = 401 then AUTHENTICATION
      else if statusCode = 403 then AUTHORIZATION
      else if statusCode = 404 then NOT_FOUND
      else if statusCode = 429 then RATE_LIMIT
      else if statusCode = 422 then BUSINESS_LOGIC
      else
        (case (case errorMessage of
                 None \<Rightarrow> None
               | Some m \<Rightarrow>
                   if statusCode \<ge> 500 \<and> m \<noteq> [] then
                     (let lowerMessage = toLowerCase m
                      in if includes_str lowerMessage ''database''
                            \<or> includes_str lowerMessage ''prisma''
                            \<or> includes_str lowerMessage ''sql''
                            \<or> includes_str lowerMessage ''connection''
                           then Some DATABASE
                         else if includes_str lowerMessage ''timeout''
                            \<or> includes_str lowerMessage ''external service''
                            \<or> includes_str lowerMessage ''third-party''
                            \<or> includes_str lowerMessage ''upstream''
                           then Some EXTERNAL_SERVICE
                         else None)
                   else None) of
           Some category \<Rightarrow> category
         | None \<Rightarrow>
             if statusCode \<ge> 400 \<and> statusCode < 500 then VALIDATION
             else if statusCode \<ge> 500 then INTERNAL
             else UNKNOWN))"

text \<open>
  The categorizer as the specification words it: a table of exact statuses, then the two
  keyword sets for server errors with a message, then the ranges.
\<close>

definition spec_exact_status :: "(int \<times> ErrorCategory) list" where
  "spec_exact_status =
     [(400, VALIDATION), (401, AUTHENTICATION), (403, AUTHORIZATION), (404, NOT_FOUND),
      (429, RATE_LIMIT), (422, BUSINESS_LOGIC)]"

definition spec_matches :: "string list \<Rightarrow> string option \<Rightarrow> bool" where
  "spec_matches keywords errorMessage =
     (case errorMessage of
        None \<Rightarrow> False
      | Some m \<Rightarrow> list_ex (\<lambda>k. includes_str (toLowerCase m) k) keywords)"

definition spec_category :: "int \<Rightarrow> string option \<Rightarrow> ErrorCategory" where
  "spec_category statusCode errorMessage =
     (case map_of spec_exact_status statusCode of
        Some category \<Rightarrow> category
      | None \<Rightarrow>
          if statusCode \<ge> 500
             \<and> spec_matches [''database'', ''prisma'', ''sql'', ''connection''] errorMessage
            then DATABASE
          else if statusCode \<ge> 500
             \<and> spec_matches [''timeout'', ''external service'', ''third-party'', ''upstream'']
                   errorMessage
            then EXTERNAL_SERVICE
          else if 400 \<le> statusCode \<and> statusCode \<le> 499 then VALIDATION
          else if statusCode \<ge> 500 then INTERNAL
          else UNKNOWN)"


section \<open>The request (request.interface.ts)\<close>

datatype header_value = HeaderString string | HeaderArray "string list"

record request =
  req_requestId :: "string option"
  req_correlationId :: "string option"
  req_startTime :: "int option"
  req_method :: string
  req_url :: string
  req_headers :: "string \<Rightarrow> header_value option"
  req_ip :: "string option"
  req_remoteAddress :: "string option"
  req_body :: jsval


section \<open>The client address resolver (ip.util.ts)\<close>

record IpInfo =
  ipv4 :: string
  ipv6 :: string
  display :: string

text \<open>\<^verbatim>\<open>ips.add(x)\<close> on a \<^verbatim>\<open>Set\<close>, which iterates in insertion order.\<close>

definition set_add :: "string list \<Rightarrow> string \<Rightarrow> string list" where
  "set_add ips x = (if x \<in> set ips then ips else ips @ [x])"

definition proxy_headers :: "string list" where
  "proxy_headers =
     [''x-forwarded-for'', ''x-real-ip'', ''cf-connecting-ip'', ''true-client-ip'',
      ''x-client-ip'']"

definition collect_header :: "header_value option \<Rightarrow> string list \<Rightarrow> string list" where
  "collect_header v ips =
     (case v of
        None \<Rightarrow> ips
      | Some (HeaderString s) \<Rightarrow>
          if s = [] then ips
          else fold (\<lambda>ip acc. set_add acc (trim ip)) (split_str CHR '','' s) ips
      | Some (HeaderArray xs) \<Rightarrow> fold (\<lambda>ip acc. set_add acc (trim ip)) xs ips)"

definition collect_ips :: "request \<Rightarrow> string list" where
  "collect_ips request =
     (let ips = fold (\<lambda>header acc. collect_header (req_headers request header) acc)
                  proxy_headers [];
          ips = (case req_ip request of
                   None \<Rightarrow> ips
                 | Some a \<Rightarrow> if a = [] then ips else set_add ips a);
          ips = (case req_remoteAddress request of
                   None \<Rightarrow> ips
                 | Some a \<Rightarrow> if a = [] then ips else set_add ips a)
      in ips)"

text \<open>The body of \<^verbatim>\<open>ips.forEach\<close>; the state is the pair of slots \<open>(ipv4, ipv6)\<close>.\<close>

definition classify :: "string \<Rightarrow> string \<times> string \<Rightarrow> string \<times> string" where
  "classify cleanIp slots =
     (case slots of (v4, v6) \<Rightarrow>
        if startsWith cleanIp ''::ffff:''
          then (if v4 = [] then (drop 7 cleanIp, v6) else (v4, v6))
        else if CHR '':'' \<in> set cleanIp
          then (if v6 = [] then (v4, cleanIp) else (v4, v6))
        else if CHR ''.'' \<in> set cleanIp
          then (if v4 = [] then (cleanIp, v6) else (v4, v6))
        else (v4, v6))"

definition resolve_ips :: "string list \<Rightarrow> IpInfo" where
  "resolve_ips ips =
     (case fold classify ips ([], []) of (v4, v6) \<Rightarrow>
        (let v4 = (if v6 = ''::1'' \<and> v4 = [] then ''127.0.0.1'' else v4);
             v6 = (if v4 = ''127.0.0.1'' \<and> v6 = [] then ''::1'' else v6);
             displayParts = (if v6 \<noteq> [] then [''IPv6: '' @ v6] else [])
                          @ (if v4 \<noteq> [] then [''IPv4: '' @ v4] else [])
         in \<lparr> ipv4 = v4, ipv6 = v6,
              display = (if length displayParts > 0
                         then join [CHR 0x0A, CHR '' ''] displayParts
                         else ''unknown'') \<rparr>))"

definition getClientIpInfo :: "request \<Rightarrow> IpInfo" where
  "getClientIpInfo request = resolve_ips (collect_ips request)"

text \<open>
  The resolver as the specification words it: each candidate offers a value to at most
  one slot, and a slot takes the first offer that is not empty.
\<close>

definition spec_ipv4_offer :: "string \<Rightarrow> string" where
  "spec_ipv4_offer c =
     (if startsWith c ''::ffff:'' then drop 7 c
      else if CHR '':'' \<in> set c then []
      else if CHR ''.'' \<in> set c then c
      else [])"

definition spec_ipv6_offer :: "string \<Rightarrow> string" where
  "spec_ipv6_offer c =
     (if startsWith c ''::ffff:'' then []
      else if CHR '':'' \<in> set c then c
      else [])"

definition first_seen :: "string list \<Rightarrow> string" where
  "first_seen offers = (case filter (\<lambda>s. s \<noteq> []) offers of [] \<Rightarrow> [] | s # _ \<Rightarrow> s)"

definition spec_resolve :: "string list \<Rightarrow> IpInfo" where
  "spec_resolve candidates =
     (let found4 = first_seen (map spec_ipv4_offer candidates);
          found6 = first_seen (map spec_ipv6_offer candidates);
          v4 = (if found6 = ''::1'' \<and> found4 = [] then ''127.0.0.1'' else found4);
          v6 = (if v4 = ''127.0.0.1'' \<and> found6 = [] then ''::1'' else found6)
      in \<lparr> ipv4 = v4, ipv6 = v6,
           display =
             (if v6 = [] \<and> v4 = [] then ''unknown''
              else if v4 = [] then ''IPv6: '' @ v6
              else if v6 = [] then ''IPv4: '' @ v4
              else ''IPv6: '' @ v6 @ [CHR 0x0A, CHR '' ''] @ ''IPv4: '' @ v4) \<rparr>)"


section \<open>Logging\<close>

text \<open>
  A log call is recorded with its severity and the fields of its context object that the
  pipeline decides; the formatted text of the message is left out.
\<close>

datatype log_level = LOG_ERROR | LOG_WARN | LOG_INFO

record log_entry =
  log_level :: log_level
  log_requestId :: string
  log_correlationId :: string
  log_duration :: string
  log_requestBody :: "jsval option"
  log_alertType :: "string option"
  log_securityAlert :: bool
  log_rateLimitAlert :: bool
  log_stack :: bool

definition SLOW_REQUEST_THRESHOLD_MS :: int where
  "SLOW_REQUEST_THRESHOLD_MS = 3000"

text \<open>\<^verbatim>\<open>maskedBody && Object.keys(maskedBody).length > 0\<close>\<close>

definition has_keys :: "jsval option \<Rightarrow> bool" where
  "has_keys maskedBody =
     (case maskedBody of
        Some (JObj es) \<Rightarrow> es \<noteq> []
      | Some (JArr xs) \<Rightarrow> xs \<noteq> []
      | _ \<Rightarrow> False)"

definition is_slow_alert :: "log_entry \<Rightarrow> bool" where
  "is_slow_alert e = (log_level e = LOG_WARN \<and> log_alertType e = Some ''SLOW_REQUEST'')"


section \<open>The success transformer (transform.interceptor.ts)\<close>

record success_meta =
  sm_requestId :: string
  sm_correlationId :: string
  sm_path :: string
  sm_method :: string
  sm_lang :: string
  sm_ipv4 :: string
  sm_ipv6 :: string
  sm_duration :: string
  sm_message :: string
  sm_timestamp :: string

record IGenericResponse =
  gr_success :: bool
  gr_statusCode :: int
  gr_meta :: success_meta
  gr_data :: jsval

text \<open>
  \<open>JSON_stringify\<close> stands for the runtime's \<^verbatim>\<open>JSON.stringify\<close>, which returns the
  text or throws. Only that call is inside the \<^verbatim>\<open>try\<close>: an error of
  \<^verbatim>\<open>message.join\<close> leaves \<open>formatMessage\<close>.
\<close>

definition formatMessage ::
  "(int \<Rightarrow> string) \<Rightarrow> (jsval \<Rightarrow> js_error + string) \<Rightarrow> jsval \<Rightarrow> js_error + string" where
  "formatMessage Number_toString JSON_stringify message =
     (case message of
        JNull \<Rightarrow> Inr ''Request successful''
      | JUndefined \<Rightarrow> Inr ''Request successful''
      | JStr s \<Rightarrow> Inr s
      | JArr xs \<Rightarrow> join_elements Number_toString '', '' xs
      | JNum n \<Rightarrow> String_value Number_toString (JNum n)
      | JBool b \<Rightarrow> String_value Number_toString (JBool b)
      | JObj es \<Rightarrow>
          (case JSON_stringify (JObj es) of
             Inr text \<Rightarrow> Inr text
           | Inl e \<Rightarrow> Inr ''Request successful''))"

text \<open>
  \<^verbatim>\<open>dataObj['message']\<close>, \<^verbatim>\<open>'message' in dataObj\<close> and the rest of the
  destructuring \<^verbatim>\<open>{ message: _, ...rest }\<close>, on a handler result.
\<close>

definition get_message :: "jsval \<Rightarrow> jsval" where
  "get_message v =
     (case v of
        JObj es \<Rightarrow> (case map_of es ''message'' of Some m \<Rightarrow> m | None \<Rightarrow> JUndefined)
      | _ \<Rightarrow> JUndefined)"

definition has_message :: "jsval \<Rightarrow> bool" where
  "has_message v = (case v of JObj es \<Rightarrow> ''message'' \<in> fst ` set es | _ \<Rightarrow> False)"

definition without_message :: "jsval \<Rightarrow> jsval" where
  "without_message v =
     (case v of JObj es \<Rightarrow> JObj (filter (\<lambda>e. fst e \<noteq> ''message'') es) | _ \<Rightarrow> v)"

text \<open>
  \<open>logSuccess\<close> serializes the masked body into the text of the entry when it has keys,
  outside any \<^verbatim>\<open>try\<close> and before it logs.
\<close>

definition logSuccess ::
  "(int \<Rightarrow> string) \<Rightarrow> (jsval \<Rightarrow> js_error + string) \<Rightarrow> string \<Rightarrow> string \<Rightarrow> int \<Rightarrow> jsval option
     \<Rightarrow> js_error + log_entry" where
  "logSuccess Number_toString JSON_stringify requestId correlationId duration maskedBody =
     (let hasBody = has_keys maskedBody
      in case (case maskedBody of
                 Some body \<Rightarrow> if hasBody then JSON_stringify body else Inr []
               | None \<Rightarrow> Inr []) of
           Inl e \<Rightarrow> Inl e
         | Inr bodyLog \<Rightarrow>
             Inr \<lparr> log_level = LOG_INFO, log_requestId = requestId,
                   log_correlationId = correlationId,
                   log_duration = Number_toString duration @ ''ms'',
                   log_requestBody = (if hasBody then maskedBody else None),
                   log_alertType = None, log_securityAlert = False,
                   log_rateLimitAlert = False, log_stack = False \<rparr>)"

text \<open>
  \<open>intercept\<close> takes what the surroundings supply: the two runtime conversions, the
  language of the localization context if one is active, the request, the status code of
  the response, the clock when the interceptor is entered (\<open>now_entry\<close>) and when the
  handler has produced its result (\<open>now_result\<close>), and the time stamp. It returns the
  envelope and the log calls it made, in order; or the error that leaves it, thrown by
  \<open>formatMessage\<close> or by \<open>logSuccess\<close> before anything is logged.
\<close>

definition intercept ::
  "(int \<Rightarrow> string) \<Rightarrow> (jsval \<Rightarrow> js_error + string) \<Rightarrow> string option \<Rightarrow> request \<Rightarrow> int
     \<Rightarrow> int \<Rightarrow> int \<Rightarrow> string \<Rightarrow> jsval \<Rightarrow> js_error + (IGenericResponse \<times> log_entry list)" where
  "intercept Number_toString JSON_stringify i18n_lang request statusCode now_entry now_result
       timestamp data =
     (let lang = (case i18n_lang of None \<Rightarrow> ''tr'' | Some l \<Rightarrow> l);
          startTime = (case req_startTime request of
                         None \<Rightarrow> now_entry
                       | Some t \<Rightarrow> if t = 0 then now_entry else t);
          ipInfo = getClientIpInfo request;
          isObject = is_object data;
          rawMessage = get_message data
      in case formatMessage Number_toString JSON_stringify rawMessage of
           Inl e \<Rightarrow> Inl e
         | Inr messageString \<Rightarrow>
             (let duration = now_result - startTime;
                  durationStr = Number_toString duration @ ''ms'';
                  requestId = or_else (req_requestId request) ''N/A'';
                  correlationId = or_else (req_correlationId request) requestId;
                  finalData =
                    (if isObject \<and> has_message data then without_message data else data);
                  shouldLogBody = (req_method request \<in> set [''POST'', ''PUT'', ''PATCH'']);
                  maskedBody =
                    (if shouldLogBody \<and> is_object (req_body request)
                     then Some (maskSensitiveData (req_body request) DEFAULT_SENSITIVE_FIELDS)
                     else None)
              in case logSuccess Number_toString JSON_stringify requestId correlationId
                        duration maskedBody of
                   Inl e \<Rightarrow> Inl e
                 | Inr logged \<Rightarrow>
                     Inr (\<lparr> gr_success = True, gr_statusCode = statusCode,
                            gr_meta = \<lparr> sm_requestId = requestId,
                                        sm_correlationId = correlationId,
                                        sm_path = req_url request,
                                        sm_method = req_method request,
                                        sm_lang = lang, sm_ipv4 = ipv4 ipInfo,
                                        sm_ipv6 = ipv6 ipInfo, sm_duration = durationStr,
                                        sm_message = messageString,
                                        sm_timestamp = timestamp \<rparr>,
                            gr_data = finalData \<rparr>,
                          logged
                            # (if duration > SLOW_REQUEST_THRESHOLD_MS
                               then [\<lparr> log_level = LOG_WARN, log_requestId = requestId,
                                       log_correlationId = correlationId,
                                       log_duration = durationStr, log_requestBody = None,
                                       log_alertType = Some ''SLOW_REQUEST'',
                                       log_securityAlert = False,
                                       log_rateLimitAlert = False, log_stack = False \<rparr>]
                               else []))))"


section \<open>The exception translator (all-exceptions.filter.ts)\<close>

datatype message = MessageString string | MessageArray "string list"

text \<open>
  What \<^verbatim>\<open>getResponse()\<close> of an \<^verbatim>\<open>HttpException\<close> returns: a string, or an object
  read as \<^verbatim>\<open>{ message?: string | string[]; error?: string }\<close>.
\<close>

datatype response_payload =
    PayloadString string
  | PayloadObject "message option" "string option"

text \<open>
  A caught value: an \<^verbatim>\<open>HttpException\<close> (name, status, response), any other
  \<^verbatim>\<open>Error\<close> (name, message), or a value that is not an \<^verbatim>\<open>Error\<close>.
\<close>

datatype exception =
    HttpException string int response_payload
  | Error string string
  | Thrown jsval

record error_meta =
  em_requestId :: string
  em_correlationId :: string
  em_path :: string
  em_method :: string
  em_lang :: string
  em_message :: message
  em_timestamp :: string
  em_ipv4 :: string
  em_ipv6 :: string
  em_errorCategory :: ErrorCategory
  em_errors :: "(string \<times> string list) list option"

record IErrorResponse =
  er_success :: bool
  er_statusCode :: int
  er_meta :: error_meta

text \<open>The field a validation message is filed under: \<^verbatim>\<open>msg.split(' ')[0] || 'general'\<close>\<close>

definition field_of :: "string \<Rightarrow> string" where
  "field_of msg =
     (case split_str CHR '' '' msg of
        [] \<Rightarrow> ''general''
      | t # _ \<Rightarrow> if t = [] then ''general'' else t)"

text \<open>
  The \<^verbatim>\<open>forEach\<close> of \<open>structureValidationErrors\<close>, with \<^verbatim>\<open>errors\<close> as its state.
  \<^verbatim>\<open>errors[field]\<close> is an own entry, or a member inherited from
  \<^verbatim>\<open>Object.prototype\<close>, or undefined. An inherited member is truthy, so no list is
  created for it, and it has no \<^verbatim>\<open>push\<close>: the call throws.
\<close>

fun structure_messages ::
  "string list \<Rightarrow> (string \<times> string list) list \<Rightarrow> js_error + (string \<times> string list) list" where
  "structure_messages [] errors = Inr errors"
| "structure_messages (msg # messages) errors =
     (let field = field_of msg
      in case map_of errors field of
           Some listed \<Rightarrow> structure_messages messages (obj_set errors field (listed @ [msg]))
         | None \<Rightarrow>
             if field \<in> set object_prototype_keys then Inl TypeError
             else structure_messages messages (obj_set errors field [msg]))"

definition structureValidationErrors ::
  "string list \<Rightarrow> js_error + (string \<times> string list) list" where
  "structureValidationErrors messages = structure_messages messages []"

text \<open>
  The field as the specification words it: the first token delimited by white space.
\<close>

definition spec_first_token :: "string \<Rightarrow> string" where
  "spec_first_token msg = takeWhile (\<lambda>c. \<not> is_whitespace c) msg"

definition spec_field_of :: "string \<Rightarrow> string" where
  "spec_field_of msg = (if spec_first_token msg = [] then ''general'' else spec_first_token msg)"

text \<open>
  Status, message and error name of a caught value; \<open>translate\<close> is the localization
  service.
\<close>

definition determine_status_message ::
  "(string \<Rightarrow> string \<Rightarrow> string) \<Rightarrow> string \<Rightarrow> exception \<Rightarrow> int \<times> message \<times> string" where
  "determine_status_message translate lang exception =
     (case exception of
        HttpException name status res \<Rightarrow>
          (case res of
             PayloadObject msg err \<Rightarrow>
               (status,
                (case msg of
                   Some m \<Rightarrow> m
                 | None \<Rightarrow> (case err of
                              Some e \<Rightarrow> MessageString e
                            | None \<Rightarrow> MessageString ''Error'')),
                name)
           | PayloadString s \<Rightarrow> (status, MessageString s, name))
      | Error name msg \<Rightarrow> (500, MessageString msg, name)
      | Thrown v \<Rightarrow>
          (500, MessageString (translate ''common.INTERNAL_SERVER_ERROR'' lang),
           ''InternalServerError''))"

definition is_Error :: "exception \<Rightarrow> bool" where
  "is_Error exception = (case exception of Thrown v \<Rightarrow> False | _ \<Rightarrow> True)"

definition logByCategory ::
  "int \<Rightarrow> ErrorCategory \<Rightarrow> exception \<Rightarrow> log_entry \<Rightarrow> log_entry" where
  "logByCategory status category exception context =
     (if status \<ge> 500
        then context\<lparr> log_level := LOG_ERROR, log_stack := is_Error exception \<rparr>
      else if status = 404 then context\<lparr> log_level := LOG_WARN \<rparr>
      else if status = 401 \<or> status = 403
        then context\<lparr> log_level := LOG_WARN, log_securityAlert := True \<rparr>
      else if status = 429
        then context\<lparr> log_level := LOG_WARN, log_rateLimitAlert := True \<rparr>
      else if status \<ge> 400
        then (if category = VALIDATION then context\<lparr> log_level := LOG_INFO \<rparr>
              else context\<lparr> log_level := LOG_WARN \<rparr>)
      else context\<lparr> log_level := LOG_INFO \<rparr>)"

text \<open>
  \<open>catch\<close> takes the number conversion of the runtime, the localization service, the
  language of the localization context if one is active, the request, the clock and the time stamp, and the caught value. It
  returns the envelope written to the response and the log calls made, in order; or the
  error it throws itself, in which case it has logged nothing and written no response.
\<close>

definition catch ::
  "(int \<Rightarrow> string) \<Rightarrow> (string \<Rightarrow> string \<Rightarrow> string) \<Rightarrow> string option \<Rightarrow> request \<Rightarrow> int \<Rightarrow> string
     \<Rightarrow> exception \<Rightarrow> js_error + (IErrorResponse \<times> log_entry list)" where
  "catch Number_toString translate i18n_lang request now timestamp exception =
     (let lang = (case i18n_lang of None \<Rightarrow> ''tr'' | Some l \<Rightarrow> l);
          requestId = or_else (req_requestId request) ''N/A'';
          correlationId = or_else (req_correlationId request) requestId;
          duration = (case req_startTime request of
                        None \<Rightarrow> 0
                      | Some t \<Rightarrow> if t = 0 then 0 else now - t);
          ipInfo = getClientIpInfo request;
          maskedBody = (if is_object (req_body request)
                        then Some (maskSensitiveData (req_body request) DEFAULT_SENSITIVE_FIELDS)
                        else None)
      in case determine_status_message translate lang exception of
           (status, message, errorName) \<Rightarrow>
             (let messageStr = (case message of
                                  MessageArray xs \<Rightarrow> join '', '' xs
                                | MessageString s \<Rightarrow> s);
                  errorCategory = getErrorCategory status (Some messageStr)
              in case (case message of
                         MessageArray xs \<Rightarrow>
                           if errorCategory = VALIDATION
                           then map_sum id Some (structureValidationErrors xs)
                           else Inr None
                       | MessageString s \<Rightarrow> Inr None) of
                   Inl e \<Rightarrow> Inl e
                 | Inr errors \<Rightarrow>
                     (let errorResponse =
                            \<lparr> er_success = False, er_statusCode = status,
                              er_meta = \<lparr> em_requestId = requestId,
                                          em_correlationId = correlationId,
                                          em_path = req_url request,
                                          em_method = req_method request,
                                          em_lang = lang, em_message = message,
                                          em_timestamp = timestamp,
                                          em_ipv4 = ipv4 ipInfo, em_ipv6 = ipv6 ipInfo,
                                          em_errorCategory = errorCategory,
                                          em_errors = errors \<rparr> \<rparr>;
                          logContext =
                            \<lparr> log_level = LOG_INFO, log_requestId = requestId,
                              log_correlationId = correlationId,
                              log_duration = Number_toString duration @ ''ms'',
                              log_requestBody =
                                (if has_keys maskedBody then maskedBody else None),
                              log_alertType = None, log_securityAlert = False,
                              log_rateLimitAlert = False, log_stack = False \<rparr>
                      in Inr (errorResponse,
                              logByCategory status errorCategory exception logContext
                                # (if duration > SLOW_REQUEST_THRESHOLD_MS
                                   then [logContext\<lparr> log_level := LOG_WARN,
                                           log_alertType := Some ''SLOW_REQUEST'' \<rparr>]
                                   else [])))))"


text \<open>The messages of a caught value whose message is an array.\<close>

definition array_messages :: "exception \<Rightarrow> string list" where
  "array_messages exception =
     (case exception of
        HttpException name status (PayloadObject (Some (MessageArray xs)) err) \<Rightarrow> xs
      | _ \<Rightarrow> [])"


section \<open>Sample inputs\<close>

text \<open>
  A request that the correlation middleware has not stamped, with no headers, no
  addresses and no body; a localization service; a serializer that always throws; a
  number conversion that prints decimal digits.
\<close>

definition bare_request :: request where
  "bare_request =
     \<lparr> req_requestId = None, req_correlationId = None, req_startTime = None,
       req_method = ''GET'', req_url = ''/users'', req_headers = Map.empty,
       req_ip = None, req_remoteAddress = None, req_body = JUndefined \<rparr>"

definition sample_translate :: "string \<Rightarrow> string \<Rightarrow> string" where
  "sample_translate key lang = ''Internal server error''"

definition failing_stringify :: "jsval \<Rightarrow> js_error + string" where
  "failing_stringify v = Inl TypeError"

fun digits :: "nat \<Rightarrow> string" where
  "digits n =
     (if n < 10 then [char_of (48 + n)]
      else digits (n div 10) @ [char_of (48 + n mod 10)])"

definition sample_number_string :: "int \<Rightarrow> string" where
  "sample_number_string n =
     (if n < 0 then CHR ''-'' # digits (nat (- n)) else digits (nat n))"


section \<open>Properties of the masking utility\<close>

lemma obj_update_keys:
  "map fst (map (\<lambda>(k', w). if k' = k then (k', v) else (k', w)) obj) = map fst obj"
  by (induction obj) (simp_all add: case_prod_beta)

lemma obj_set_distinct:
  assumes "distinct (map fst obj)"
  shows "distinct (map fst (obj_set obj k v))"
proof (cases "k = ''__proto__''")
  case True
  with assms show ?thesis by (simp add: obj_set_def)
next
  case False
  note not_proto = this
  show ?thesis
  proof (cases "k \<in> fst ` set obj")
    case True
    with not_proto assms show ?thesis
      by (simp only: obj_set_def if_True if_False obj_update_keys)
  next
    case False
    with not_proto assms show ?thesis by (simp add: obj_set_def)
  qed
qed

lemma obj_set_no_proto:
  "''__proto__'' \<notin> fst ` set obj \<Longrightarrow> ''__proto__'' \<notin> fst ` set (obj_set obj k v)"
  by (auto simp: obj_set_def split: if_splits)

lemma obj_set_entry:
  "(k', w) \<in> set (obj_set obj k v) \<Longrightarrow> (k', w) \<in> set obj \<or> (k' = k \<and> w = v)"
  by (auto simp: obj_set_def split: if_splits)

lemma obj_set_fresh:
  "k \<notin> fst ` set obj \<Longrightarrow> k \<noteq> ''__proto__'' \<Longrightarrow> obj_set obj k v = obj @ [(k, v)]"
  by (simp add: obj_set_def)

lemma mask_entries_step:
  "mask_entries ((k, v) # es) fs acc = mask_entries es fs (obj_set acc k (masked_value fs k v))"
  by (simp add: masked_value_def is_sensitive_def Let_def)

lemma mask_entries_distinct:
  "distinct (map fst acc) \<Longrightarrow> distinct (map fst (mask_entries es fs acc))"
proof (induction es arbitrary: acc)
  case Nil
  then show ?case by simp
next
  case (Cons e es)
  obtain k v where e: "e = (k, v)" by (cases e)
  show ?case unfolding e mask_entries_step
    by (rule Cons.IH) (rule obj_set_distinct, rule Cons.prems)
qed

lemma mask_entries_no_proto:
  "''__proto__'' \<notin> fst ` set acc \<Longrightarrow> ''__proto__'' \<notin> fst ` set (mask_entries es fs acc)"
proof (induction es arbitrary: acc)
  case Nil
  then show ?case by simp
next
  case (Cons e es)
  obtain k v where e: "e = (k, v)" by (cases e)
  show ?case unfolding e mask_entries_step
    by (rule Cons.IH) (rule obj_set_no_proto, rule Cons.prems)
qed

lemma mask_entries_entry:
  "(k, w) \<in> set (mask_entries es fs acc) \<Longrightarrow>
     (k, w) \<in> set acc \<or> (\<exists>v. (k, v) \<in> set es \<and> w = masked_value fs k v)"
proof (induction es arbitrary: acc)
  case Nil
  then show ?case by simp
next
  case (Cons e es)
  obtain k' v' where e: "e = (k', v')" by (cases e)
  from Cons.prems
  have "(k, w) \<in> set (mask_entries es fs (obj_set acc k' (masked_value fs k' v')))"
    unfolding e mask_entries_step .
  from Cons.IH [OF this] show ?case
    using obj_set_entry [of k w acc k' "masked_value fs k' v'"] e by auto
qed

lemma mask_entries_fresh:
  "distinct (map fst (acc @ es)) \<Longrightarrow> ''__proto__'' \<notin> fst ` set es \<Longrightarrow>
     mask_entries es fs acc = acc @ map (\<lambda>(k, v). (k, masked_value fs k v)) es"
proof (induction es arbitrary: acc)
  case Nil
  then show ?case by simp
next
  case (Cons e es)
  obtain k v where e: "e = (k, v)" by (cases e)
  from Cons.prems e have fresh: "k \<notin> fst ` set acc" "k \<noteq> ''__proto__''" by auto
  have step: "obj_set acc k (masked_value fs k v) = acc @ [(k, masked_value fs k v)]"
    by (rule obj_set_fresh [OF fresh])
  have d: "distinct (map fst ((acc @ [(k, masked_value fs k v)]) @ es))"
    using Cons.prems(1) e by auto
  have p: "''__proto__'' \<notin> fst ` set es" using Cons.prems(2) by auto
  show ?case unfolding e mask_entries_step step
    using Cons.IH [OF d p] by simp
qed

lemma mask_items_map:
  "mask_items items fs
     = map (\<lambda>item. if is_object item then maskSensitiveData item fs else item) items"
  by (induction items) auto

lemma is_object_mask: "is_object (maskSensitiveData v fs) = is_object v"
  by (cases v) (auto simp: is_object_def)

text \<open>
  Claim C9. Masking is idempotent: for every value and every list of sensitive field
  names, masking the masked value again returns the masked value.
\<close>

theorem maskSensitiveData_idempotent:
  "maskSensitiveData (maskSensitiveData data sensitiveFields) sensitiveFields
     = maskSensitiveData data sensitiveFields"
proof (induction data)
  case (JArr items)
  have "map (\<lambda>item. if is_object item then maskSensitiveData item sensitiveFields else item)
          (map (\<lambda>item. if is_object item then maskSensitiveData item sensitiveFields else item)
             items)
        = map (\<lambda>item. if is_object item then maskSensitiveData item sensitiveFields else item)
            items"
    using JArr.IH by (auto simp: is_object_mask)
  then show ?case by (simp add: mask_items_map)
next
  case (JObj entries)
  let ?R = "mask_entries entries sensitiveFields []"
  have d: "distinct (map fst ([] @ ?R))"
    using mask_entries_distinct [of "[]" entries sensitiveFields] by simp
  have p: "''__proto__'' \<notin> fst ` set ?R"
    using mask_entries_no_proto [of "[]" entries sensitiveFields] by simp
  have again: "mask_entries ?R sensitiveFields []
       = map (\<lambda>(k, v). (k, masked_value sensitiveFields k v)) ?R"
    using mask_entries_fresh [OF d p, of sensitiveFields] by simp
  have fixed: "(case e of (k, v) \<Rightarrow> (k, masked_value sensitiveFields k v)) = e"
    if "e \<in> set ?R" for e
  proof -
    obtain k w where e: "e = (k, w)" by (cases e)
    from that e mask_entries_entry [of k w entries sensitiveFields "[]"]
    obtain v where v: "(k, v) \<in> set entries" "w = masked_value sensitiveFields k v" by auto
    have "maskSensitiveData (maskSensitiveData v sensitiveFields) sensitiveFields
            = maskSensitiveData v sensitiveFields"
      using JObj.IH [of "(k, v)" v] v(1) by simp
    then have "masked_value sensitiveFields k w = w"
      unfolding v(2) by (simp add: masked_value_def is_object_mask)
    then show ?thesis by (simp add: e)
  qed
  have "map (\<lambda>(k, v). (k, masked_value sensitiveFields k v)) ?R = ?R"
    by (rule map_idI) (rule fixed)
  with again show ?case by simp
qed simp_all

lemma no_unmasked_items_iff:
  "no_unmasked_items fs items = list_all (no_unmasked fs) items"
  by (induction items) simp_all

lemma no_unmasked_entries_iff:
  "no_unmasked_entries fs entries
     = (\<forall>e \<in> set entries. if is_sensitive fs (fst e) then snd e = JStr MASK_STRING
                      else no_unmasked fs (snd e))"
proof (induction entries)
  case Nil
  then show ?case by simp
next
  case (Cons e entries)
  obtain k v where e: "e = (k, v)" by (cases e)
  show ?case unfolding e using Cons.IH by simp
qed

lemma no_unmasked_scalar: "\<not> is_object v \<Longrightarrow> no_unmasked fs v"
  by (cases v) (simp_all add: is_object_def)

lemma maskSensitiveData_no_unmasked: "no_unmasked fs (maskSensitiveData data fs)"
proof (induction data)
  case (JArr items)
  then show ?case
    by (auto simp: mask_items_map no_unmasked_items_iff list_all_iff no_unmasked_scalar)
next
  case (JObj entries)
  have "if is_sensitive fs (fst e) then snd e = JStr MASK_STRING else no_unmasked fs (snd e)"
    if "e \<in> set (mask_entries entries fs [])" for e
  proof -
    obtain k w where e: "e = (k, w)" by (cases e)
    from that e mask_entries_entry [of k w entries fs "[]"]
    obtain v where v: "(k, v) \<in> set entries" "w = masked_value fs k v" by auto
    have "no_unmasked fs (maskSensitiveData v fs)"
      using JObj.IH [of "(k, v)" v] v(1) by simp
    then show ?thesis
      by (simp add: e v(2) masked_value_def no_unmasked_scalar)
  qed
  then show ?case by (simp add: no_unmasked_entries_iff)
qed simp_all

lemma maskSensitiveData_plain_object:
  assumes "distinct (map fst entries)" and "''__proto__'' \<notin> fst ` set entries"
  shows "maskSensitiveData (JObj entries) fs
           = JObj (map (\<lambda>(k, v). (k, masked_value fs k v)) entries)"
  using mask_entries_fresh [of "[]" entries fs] assms by simp

lemma maskSensitiveData_scalar: "\<not> is_object data \<Longrightarrow> maskSensitiveData data fs = data"
  by (cases data) (simp_all add: is_object_def)

text \<open>
  Claim C1. For every input and every list of sensitive field names, the masked copy has
  the marker at every entry with a sensitive key and keeps every other scalar entry
  exactly. The first half holds (\<open>maskSensitiveData_no_unmasked\<close>), and so does the
  second for objects without a key \<^verbatim>\<open>__proto__\<close>
  (\<open>maskSensitiveData_plain_object\<close>). An entry with the key \<^verbatim>\<open>__proto__\<close>,
  which \<^verbatim>\<open>JSON.parse\<close> creates as an own entry, is lost: the assignment
  \<^verbatim>\<open>maskedData[key] = value\<close> runs the inherited setter.
\<close>

theorem maskSensitiveData_drops_proto_entry:
  "maskSensitiveData (JObj [(''__proto__'', JStr ''x''), (''name'', JStr ''Ada'')])
       DEFAULT_SENSITIVE_FIELDS
     = JObj [(''name'', JStr ''Ada'')]"
  by code_simp

lemma maskSensitiveData_nested_example:
  "maskSensitiveData
       (JObj [(''user'', JObj [(''password'', JStr ''p1''), (''name'', JStr ''Ada'')])])
       DEFAULT_SENSITIVE_FIELDS
     = JObj [(''user'', JObj [(''password'', JStr ''***MASKED***''), (''name'', JStr ''Ada'')])]"
  by code_simp


section \<open>Properties of the error categorizer\<close>

text \<open>
  Claim C2. The categorizer is a total function that applies the exact status table
  first, then, for a status of 500 or more with a message, the case-insensitive keyword
  sets for DATABASE and EXTERNAL_SERVICE, then the ranges: any other 4xx is VALIDATION,
  any other status of 500 or more is INTERNAL (599 without a message included), and the
  rest is UNKNOWN.
\<close>

theorem getErrorCategory_priority_order:
  "getErrorCategory statusCode errorMessage = spec_category statusCode errorMessage
   \<and> (\<exists>!category. getErrorCategory statusCode errorMessage = category)
   \<and> getErrorCategory 400 errorMessage = VALIDATION
   \<and> getErrorCategory 401 errorMessage = AUTHENTICATION
   \<and> getErrorCategory 500 (Some ''connection refused'') = DATABASE
   \<and> getErrorCategory 500 (Some ''request timeout to upstream'') = EXTERNAL_SERVICE
   \<and> getErrorCategory 500 (Some ''boom'') = INTERNAL
   \<and> getErrorCategory 599 None = INTERNAL"
proof -
  have refines: "getErrorCategory statusCode errorMessage = spec_category statusCode errorMessage"
  proof (cases errorMessage)
    case None
    then show ?thesis
      by (simp add: getErrorCategory_def spec_category_def spec_exact_status_def
          spec_matches_def)
  next
    case (Some m)
    show ?thesis
    proof (cases "m = []")
      case True
      with Some show ?thesis
        by (simp add: getErrorCategory_def spec_category_def spec_exact_status_def
            spec_matches_def toLowerCase_def)
    next
      case False
      with Some show ?thesis
        by (simp add: getErrorCategory_def spec_category_def spec_exact_status_def
            spec_matches_def Let_def)
    qed
  qed
  have exact: "getErrorCategory 400 errorMessage = VALIDATION"
    "getErrorCategory 401 errorMessage = AUTHENTICATION"
    by (simp_all add: getErrorCategory_def)
  have database: "getErrorCategory 500 (Some ''connection refused'') = DATABASE"
    by code_simp
  have external: "getErrorCategory 500 (Some ''request timeout to upstream'') = EXTERNAL_SERVICE"
    by code_simp
  have internal: "getErrorCategory 500 (Some ''boom'') = INTERNAL"
    "getErrorCategory 599 None = INTERNAL"
    by code_simp+
  from refines exact database external internal show ?thesis by simp
qed


section \<open>Properties of the client address resolver\<close>

lemma first_seen_Cons:
  "first_seen (s # offers) = (if s \<noteq> [] then s else first_seen offers)"
  by (simp add: first_seen_def)

lemma first_seen_Nil: "first_seen [] = []"
  by (simp add: first_seen_def)

lemma fold_classify:
  "fold classify ips (a, b) =
     (if a \<noteq> [] then a else first_seen (map spec_ipv4_offer ips),
      if b \<noteq> [] then b else first_seen (map spec_ipv6_offer ips))"
proof (induction ips arbitrary: a b)
  case Nil
  then show ?case by (simp add: first_seen_Nil)
next
  case (Cons c ips)
  obtain a' b' where step: "classify c (a, b) = (a', b')" by (cases "classify c (a, b)")
  have a': "a' = (if a \<noteq> [] then a else spec_ipv4_offer c)"
    and b': "b' = (if b \<noteq> [] then b else spec_ipv6_offer c)"
    using step by (auto simp: classify_def spec_ipv4_offer_def spec_ipv6_offer_def split: if_splits)
  have "fold classify (c # ips) (a, b) = fold classify ips (a', b')"
    by (simp add: step)
  also have "\<dots> = (if a' \<noteq> [] then a' else first_seen (map spec_ipv4_offer ips),
      if b' \<noteq> [] then b' else first_seen (map spec_ipv6_offer ips))"
    by (rule Cons.IH)
  also have "\<dots> = (if a \<noteq> [] then a else first_seen (map spec_ipv4_offer (c # ips)),
      if b \<noteq> [] then b else first_seen (map spec_ipv6_offer (c # ips)))"
    by (simp add: a' b' first_seen_Cons)
  finally show ?case .
qed

lemma resolve_ips_spec: "resolve_ips ips = spec_resolve ips"
  by (simp add: resolve_ips_def spec_resolve_def fold_classify Let_def)

text \<open>
  Claim C6. The resolver classifies the collected candidates first-seen-wins: a candidate
  beginning with \<^verbatim>\<open>::ffff:\<close> offers its suffix to the IPv4 slot, any other
  candidate with a colon offers itself to the IPv6 slot, any other candidate with a dot
  offers itself to the IPv4 slot; then the loopback defaults apply, and the display lists
  what was resolved or is \<^verbatim>\<open>unknown\<close>. The two examples of the specification are
  evaluated.
\<close>

theorem getClientIpInfo_first_seen:
  "getClientIpInfo request = spec_resolve (collect_ips request)
   \<and> collect_ips
        (bare_request\<lparr> req_headers :=
           [''x-forwarded-for'' \<mapsto> HeaderString ''203.0.113.5, 10.0.0.1''] \<rparr>)
       = [''203.0.113.5'', ''10.0.0.1'']
   \<and> getClientIpInfo
        (bare_request\<lparr> req_headers :=
           [''x-forwarded-for'' \<mapsto> HeaderString ''203.0.113.5, 10.0.0.1''] \<rparr>)
       = \<lparr> ipv4 = ''203.0.113.5'', ipv6 = [], display = ''IPv4: 203.0.113.5'' \<rparr>
   \<and> getClientIpInfo (bare_request\<lparr> req_remoteAddress := Some ''::1'' \<rparr>)
       = \<lparr> ipv4 = ''127.0.0.1'', ipv6 = ''::1'',
            display = ''IPv6: ::1'' @ [CHR 0x0A, CHR '' ''] @ ''IPv4: 127.0.0.1'' \<rparr>"
proof -
  have general: "getClientIpInfo request = spec_resolve (collect_ips request)"
    by (simp add: getClientIpInfo_def resolve_ips_spec)
  have collected: "collect_ips
        (bare_request\<lparr> req_headers :=
           [''x-forwarded-for'' \<mapsto> HeaderString ''203.0.113.5, 10.0.0.1''] \<rparr>)
       = [''203.0.113.5'', ''10.0.0.1'']"
    by code_simp
  have forwarded: "getClientIpInfo
        (bare_request\<lparr> req_headers :=
           [''x-forwarded-for'' \<mapsto> HeaderString ''203.0.113.5, 10.0.0.1''] \<rparr>)
       = \<lparr> ipv4 = ''203.0.113.5'', ipv6 = [], display = ''IPv4: 203.0.113.5'' \<rparr>"
    by code_simp
  have loopback: "getClientIpInfo (bare_request\<lparr> req_remoteAddress := Some ''::1'' \<rparr>)
       = \<lparr> ipv4 = ''127.0.0.1'', ipv6 = ''::1'',
            display = ''IPv6: ::1'' @ [CHR 0x0A, CHR '' ''] @ ''IPv4: 127.0.0.1'' \<rparr>"
    by code_simp
  from general collected forwarded loopback show ?thesis by simp
qed


section \<open>Properties of the success transformer\<close>

lemma join_elements_strings:
  "join_elements Number_toString sep (map JStr xs) = Inr (join sep xs)"
  by (induction sep xs rule: join.induct) simp_all

lemma formatMessage_cases:
  "formatMessage Number_toString JSON_stringify (JStr s) = Inr s"
  "formatMessage Number_toString JSON_stringify (JArr (map JStr xs)) = Inr (join '', '' xs)"
  "formatMessage Number_toString JSON_stringify (JArr vs)
     = join_elements Number_toString '', '' vs"
  "formatMessage Number_toString JSON_stringify (JNum n) = Inr (Number_toString n)"
  "formatMessage Number_toString JSON_stringify (JBool b)
     = Inr (if b then ''true'' else ''false'')"
  "formatMessage Number_toString JSON_stringify (JObj es)
     = Inr (case JSON_stringify (JObj es) of Inr t \<Rightarrow> t | Inl e \<Rightarrow> ''Request successful'')"
  "formatMessage Number_toString JSON_stringify JNull = Inr ''Request successful''"
  "formatMessage Number_toString JSON_stringify JUndefined = Inr ''Request successful''"
  by (simp_all add: formatMessage_def join_elements_strings split: sum.splits)

lemma formatMessage_throws_iff:
  "(formatMessage Number_toString JSON_stringify message = Inl TypeError)
     = (\<exists>xs. message = JArr xs \<and> join_elements Number_toString '', '' xs = Inl TypeError)"
  by (cases message) (simp_all add: formatMessage_def split: sum.splits)

lemma logSuccess_Inr:
  "logSuccess Number_toString JSON_stringify requestId correlationId duration maskedBody
     = Inr entry \<Longrightarrow> log_level entry = LOG_INFO \<and> log_alertType entry = None"
  by (auto simp: logSuccess_def Let_def split: sum.splits option.splits if_splits)

lemma logSuccess_no_body:
  "\<not> has_keys maskedBody \<Longrightarrow>
     \<exists>entry. logSuccess Number_toString JSON_stringify requestId correlationId duration
              maskedBody = Inr entry"
  by (simp add: logSuccess_def Let_def split: option.splits)

lemma intercept_returns:
  assumes "formatMessage Number_toString JSON_stringify (get_message data) = Inr text"
    and "req_method request \<notin> set [''POST'', ''PUT'', ''PATCH'']
         \<or> \<not> is_object (req_body request)"
  shows "\<exists>response logs.
           intercept Number_toString JSON_stringify i18n_lang request statusCode now_entry
             now_result timestamp data = Inr (response, logs)"
proof -
  from assms(2)
  have "(if req_method request \<in> set [''POST'', ''PUT'', ''PATCH'']
            \<and> is_object (req_body request)
         then Some (maskSensitiveData (req_body request) DEFAULT_SENSITIVE_FIELDS)
         else None) = None"
    by auto
  then show ?thesis
    unfolding intercept_def Let_def assms(1)
    by (simp add: logSuccess_def has_keys_def)
qed

lemma intercept_throws_on_message:
  "formatMessage Number_toString JSON_stringify (get_message data) = Inl e \<Longrightarrow>
     intercept Number_toString JSON_stringify i18n_lang request statusCode now_entry now_result
       timestamp data = Inl e"
  by (simp add: intercept_def Let_def)

lemma intercept_fields:
  assumes "intercept Number_toString JSON_stringify i18n_lang request statusCode now_entry
             now_result timestamp data = Inr (response, logs)"
  shows "formatMessage Number_toString JSON_stringify (get_message data)
           = Inr (sm_message (gr_meta response))"
    and "gr_data response
           = (if is_object data \<and> has_message data then without_message data else data)"
    and "sm_lang (gr_meta response) = (case i18n_lang of None \<Rightarrow> ''tr'' | Some l \<Rightarrow> l)"
  using assms
  by (auto simp: intercept_def Let_def split: sum.splits)

lemma intercept_logs:
  assumes "intercept Number_toString JSON_stringify i18n_lang request statusCode now_entry
             now_result timestamp data = Inr (response, logs)"
  shows "length (filter is_slow_alert logs)
           = (if now_result
                   - (case req_startTime request of
                        None \<Rightarrow> now_entry
                      | Some t \<Rightarrow> if t = 0 then now_entry else t)
                 > 3000
              then 1 else 0)"
    and "length (filter (\<lambda>e. \<not> is_slow_alert e) logs) = 1"
  using assms
  by (auto simp: intercept_def Let_def is_slow_alert_def SLOW_REQUEST_THRESHOLD_MS_def
      split: sum.splits dest: logSuccess_Inr)

lemma intercept_message_and_data:
  assumes "intercept Number_toString JSON_stringify i18n_lang request statusCode now_entry
             now_result timestamp data = Inr (response, logs)"
  shows "\<forall>entries m. data = JObj entries \<and> map_of entries ''message'' = Some m \<longrightarrow>
           formatMessage Number_toString JSON_stringify m = Inr (sm_message (gr_meta response))
           \<and> gr_data response = JObj (filter (\<lambda>e. fst e \<noteq> ''message'') entries)"
    and "(\<forall>entries. data \<noteq> JObj entries) \<longrightarrow>
           sm_message (gr_meta response) = ''Request successful'' \<and> gr_data response = data"
proof -
  note f = intercept_fields(1,2) [OF assms]
  show "\<forall>entries m. data = JObj entries \<and> map_of entries ''message'' = Some m \<longrightarrow>
           formatMessage Number_toString JSON_stringify m = Inr (sm_message (gr_meta response))
           \<and> gr_data response = JObj (filter (\<lambda>e. fst e \<noteq> ''message'') entries)"
  proof (intro allI impI)
    fix entries m
    assume a: "data = JObj entries \<and> map_of entries ''message'' = Some m"
    then have "(''message'', m) \<in> set entries" by (auto dest: map_of_SomeD)
    then have "''message'' \<in> fst ` set entries" by force
    with a f show "formatMessage Number_toString JSON_stringify m
             = Inr (sm_message (gr_meta response))
           \<and> gr_data response = JObj (filter (\<lambda>e. fst e \<noteq> ''message'') entries)"
      by (simp add: get_message_def has_message_def without_message_def is_object_def)
  qed
  show "(\<forall>entries. data \<noteq> JObj entries) \<longrightarrow>
           sm_message (gr_meta response) = ''Request successful'' \<and> gr_data response = data"
    using f
    by (cases data) (auto simp: get_message_def has_message_def formatMessage_def)
qed

text \<open>
  Claim C5. For every handler result the success transformer builds the envelope: a
  \<^verbatim>\<open>message\<close> field is normalized into the envelope's message and removed from the
  data, a result that is not a mapping is passed on unchanged with the generic phrase;
  normalization keeps a string, joins an array with a comma and a space, prints numbers
  and booleans, serializes any other object (the generic phrase if the serializer
  throws), and maps \<^verbatim>\<open>null\<close> and \<^verbatim>\<open>undefined\<close> to the generic phrase. All of
  this holds whenever the transformer returns (\<open>intercept_message_and_data\<close>,
  \<open>formatMessage_cases\<close>), and formatting fails only for a message that is an array
  whose join throws (\<open>formatMessage_throws_iff\<close>, \<open>intercept_throws_on_message\<close>,
  \<open>intercept_returns\<close>). The join is outside the \<^verbatim>\<open>try\<close>: for a message array
  holding an object with an own \<^verbatim>\<open>toString\<close> entry it throws and no envelope is
  built, where the array \<^verbatim>\<open>["a", "b"]\<close> gives the message \<^verbatim>\<open>a, b\<close>, and the
  result \<^verbatim>\<open>{message: "ok", id: 7}\<close> the message \<^verbatim>\<open>ok\<close> and the data
  \<^verbatim>\<open>{id: 7}\<close>.
\<close>

theorem intercept_throws_on_message_join:
  "intercept sample_number_string failing_stringify None bare_request 200 0 5
       ''2026-01-01T00:00:00.000Z''
       (JObj [(''message'', JArr [JObj [(''toString'', JNum 1)]]), (''id'', JNum 7)])
     = Inl TypeError
   \<and> map_sum id (sm_message \<circ> gr_meta \<circ> fst)
       (intercept sample_number_string failing_stringify None bare_request 200 0 5
          ''2026-01-01T00:00:00.000Z''
          (JObj [(''message'', JArr [JStr ''a'', JStr ''b'']), (''id'', JNum 7)]))
     = Inr ''a, b''
   \<and> map_sum id (sm_message \<circ> gr_meta \<circ> fst)
       (intercept sample_number_string failing_stringify None bare_request 200 0 5
          ''2026-01-01T00:00:00.000Z''
          (JObj [(''message'', JStr ''ok''), (''id'', JNum 7)]))
     = Inr ''ok''
   \<and> map_sum id (gr_data \<circ> fst)
       (intercept sample_number_string failing_stringify None bare_request 200 0 5
          ''2026-01-01T00:00:00.000Z''
          (JObj [(''message'', JStr ''ok''), (''id'', JNum 7)]))
     = Inr (JObj [(''id'', JNum 7)])"
  by code_simp


section \<open>Properties of the exception translator\<close>

lemma obj_update_map_of:
  "map_of (map (\<lambda>(k, w). if k = key then (k, v) else (k, w)) obj) f
     = (if f = key then (if key \<in> fst ` set obj then Some v else None) else map_of obj f)"
  by (induction obj) (force simp: case_prod_beta)+

lemma obj_set_map_of:
  assumes "key \<noteq> ''__proto__''"
  shows "map_of (obj_set obj key v) = (map_of obj)(key \<mapsto> v)"
proof (cases "key \<in> fst ` set obj")
  case True
  with assms show ?thesis
    by (simp only: obj_set_def if_False if_True fun_eq_iff obj_update_map_of) simp
next
  case False
  then have "map_of obj key = None" by (simp add: map_of_eq_None_iff)
  with False assms show ?thesis
    by (auto simp: obj_set_def fun_eq_iff map_add_def split: option.splits)
qed

lemma proto_is_prototype_key: "''__proto__'' \<in> set object_prototype_keys"
  by (simp add: object_prototype_keys_def)

lemma structure_messages_groups:
  assumes "list_all (\<lambda>m. field_of m \<notin> set object_prototype_keys) messages"
    and "distinct (map fst errors)"
  shows "\<exists>result. structure_messages messages errors = Inr result
           \<and> distinct (map fst result)
           \<and> (\<forall>field. map_of result field =
                 (case map_of errors field of
                    Some listed \<Rightarrow> Some (listed @ filter (\<lambda>m. field_of m = field) messages)
                  | None \<Rightarrow>
                      if field \<in> field_of ` set messages
                      then Some (filter (\<lambda>m. field_of m = field) messages)
                      else None))"
  using assms
proof (induction messages arbitrary: errors)
  case Nil
  then show ?case by (simp split: option.splits)
next
  case (Cons msg messages)
  let ?f = "field_of msg"
  from Cons.prems(1) have ok: "?f \<notin> set object_prototype_keys"
    and rest: "list_all (\<lambda>m. field_of m \<notin> set object_prototype_keys) messages"
    by simp_all
  from ok proto_is_prototype_key have np: "?f \<noteq> ''__proto__''" by auto
  define v where "v = (case map_of errors ?f of Some listed \<Rightarrow> listed @ [msg] | None \<Rightarrow> [msg])"
  have step: "structure_messages (msg # messages) errors
                = structure_messages messages (obj_set errors ?f v)"
    using ok by (simp add: v_def Let_def split: option.splits)
  have d: "distinct (map fst (obj_set errors ?f v))"
    by (rule obj_set_distinct) (rule Cons.prems(2))
  from Cons.IH [OF rest d] obtain result where
    r: "structure_messages messages (obj_set errors ?f v) = Inr result"
    and dr: "distinct (map fst result)"
    and mr: "\<And>field. map_of result field =
                 (case map_of (obj_set errors ?f v) field of
                    Some listed \<Rightarrow> Some (listed @ filter (\<lambda>m. field_of m = field) messages)
                  | None \<Rightarrow>
                      if field \<in> field_of ` set messages
                      then Some (filter (\<lambda>m. field_of m = field) messages)
                      else None)"
    by blast
  have "map_of result field =
          (case map_of errors field of
             Some listed \<Rightarrow> Some (listed @ filter (\<lambda>m. field_of m = field) (msg # messages))
           | None \<Rightarrow>
               if field \<in> field_of ` set (msg # messages)
               then Some (filter (\<lambda>m. field_of m = field) (msg # messages))
               else None)" for field
    unfolding mr [of field] obj_set_map_of [OF np]
    by (auto simp: v_def split: option.splits)
  with r dr step show ?case by simp
qed

lemma structureValidationErrors_groups:
  assumes "list_all (\<lambda>m. field_of m \<notin> set object_prototype_keys) messages"
  shows "\<exists>result. structureValidationErrors messages = Inr result
           \<and> distinct (map fst result)
           \<and> (\<forall>field. map_of result field =
                 (if field \<in> field_of ` set messages
                  then Some (filter (\<lambda>m. field_of m = field) messages)
                  else None))"
  using structure_messages_groups [OF assms, of "[]"]
  by (simp add: structureValidationErrors_def)

lemma structure_messages_throws:
  assumes "\<not> list_all (\<lambda>m. field_of m \<notin> set object_prototype_keys) messages"
    and "list_all (\<lambda>k. k \<notin> set object_prototype_keys) (map fst errors)"
  shows "structure_messages messages errors = Inl TypeError"
  using assms
proof (induction messages arbitrary: errors)
  case Nil
  then show ?case by simp
next
  case (Cons msg messages)
  let ?f = "field_of msg"
  show ?case
  proof (cases "?f \<in> set object_prototype_keys")
    case True
    with Cons.prems(2) have "?f \<notin> fst ` set errors" by (auto simp: list_all_iff)
    then have "map_of errors ?f = None" by (simp add: map_of_eq_None_iff)
    with True show ?thesis by (simp add: Let_def)
  next
    case False
    with Cons.prems(1) have rest: "\<not> list_all (\<lambda>m. field_of m \<notin> set object_prototype_keys) messages"
      by simp
    have keys: "list_all (\<lambda>k. k \<notin> set object_prototype_keys) (map fst (obj_set errors ?f v))" for v
      using Cons.prems(2) False
      by (auto simp: list_all_iff obj_set_def split: if_splits)
    show ?thesis using False Cons.IH [OF rest keys]
      by (simp add: Let_def split: option.splits)
  qed
qed

lemma split_str_first:
  "\<exists>rest. split_str d s = takeWhile (\<lambda>c. c \<noteq> d) s # rest"
proof (induction s)
  case Nil
  then show ?case by simp
next
  case (Cons c s)
  then obtain rest where "split_str d s = takeWhile (\<lambda>c. c \<noteq> d) s # rest" by blast
  then show ?case by simp
qed

lemma field_of_first_token:
  "field_of msg =
     (if takeWhile (\<lambda>c. c \<noteq> CHR '' '') msg = [] then ''general''
      else takeWhile (\<lambda>c. c \<noteq> CHR '' '') msg)"
proof -
  obtain rest where "split_str CHR '' '' msg = takeWhile (\<lambda>c. c \<noteq> CHR '' '') msg # rest"
    using split_str_first by blast
  then show ?thesis by (simp add: field_of_def)
qed

lemma catch_errors_field:
  assumes "catch Number_toString translate i18n_lang request now timestamp exception = Inr (response, logs)"
  shows "case em_message (er_meta response) of
           MessageString s \<Rightarrow> em_errors (er_meta response) = None
         | MessageArray xs \<Rightarrow>
             if em_errorCategory (er_meta response) = VALIDATION
             then map_sum id Some (structureValidationErrors xs)
                    = Inr (em_errors (er_meta response))
             else em_errors (er_meta response) = None"
  using assms
  by (auto simp: catch_def Let_def split: prod.splits sum.splits message.splits if_splits)

lemma determine_array:
  "fst (snd (determine_status_message translate lang exception)) = MessageArray xs
     \<Longrightarrow> array_messages exception = xs"
  by (auto simp: determine_status_message_def array_messages_def
      split: exception.splits response_payload.splits option.splits message.splits)

lemma catch_returns:
  assumes "list_all (\<lambda>m. field_of m \<notin> set object_prototype_keys) (array_messages exception)"
  shows "\<exists>response logs.
           catch Number_toString translate i18n_lang request now timestamp exception = Inr (response, logs)"
proof -
  let ?lang = "case i18n_lang of None \<Rightarrow> ''tr'' | Some l \<Rightarrow> l"
  obtain status message errorName
    where d: "determine_status_message translate ?lang exception = (status, message, errorName)"
    by (cases "determine_status_message translate ?lang exception")
  show ?thesis
  proof (cases message)
    case (MessageString s)
    with d show ?thesis by (simp add: catch_def Let_def)
  next
    case (MessageArray xs)
    with d have "array_messages exception = xs"
      using determine_array [of translate ?lang exception xs] by simp
    with assms structureValidationErrors_groups [of xs]
    obtain result where "structureValidationErrors xs = Inr result" by auto
    with d MessageArray show ?thesis by (simp add: catch_def Let_def)
  qed
qed

lemma catch_Inr_fields:
  assumes "catch Number_toString translate i18n_lang request now timestamp exception = Inr (response, logs)"
  shows "er_statusCode response
           = fst (determine_status_message translate
                    (case i18n_lang of None \<Rightarrow> ''tr'' | Some l \<Rightarrow> l) exception)"
    and "em_message (er_meta response)
           = fst (snd (determine_status_message translate
                    (case i18n_lang of None \<Rightarrow> ''tr'' | Some l \<Rightarrow> l) exception))"
    and "em_lang (er_meta response) = (case i18n_lang of None \<Rightarrow> ''tr'' | Some l \<Rightarrow> l)"
    and "em_requestId (er_meta response) = or_else (req_requestId request) ''N/A''"
    and "em_correlationId (er_meta response)
           = or_else (req_correlationId request) (or_else (req_requestId request) ''N/A'')"
    and "er_success response = False"
  using assms
  by (auto simp: catch_def Let_def split: prod.splits sum.splits message.splits if_splits)

lemma logByCategory_alertType:
  "log_alertType (logByCategory status category exception context) = log_alertType context"
  by (simp add: logByCategory_def)

lemma catch_logs:
  assumes "catch Number_toString translate i18n_lang request now timestamp exception = Inr (response, logs)"
  shows "length (filter is_slow_alert logs)
           = (if (case req_startTime request of
                    None \<Rightarrow> 0
                  | Some t \<Rightarrow> if t = 0 then 0 else now - t)
                 > 3000
              then 1 else 0)"
    and "length (filter (\<lambda>e. \<not> is_slow_alert e) logs) = 1"
  using assms
  by (auto simp: catch_def Let_def logByCategory_alertType is_slow_alert_def
      SLOW_REQUEST_THRESHOLD_MS_def
      split: prod.splits sum.splits message.splits if_splits)

lemma determine_not_array:
  "(\<forall>xs. fst (snd (determine_status_message translate lang exception)) \<noteq> MessageArray xs)
     \<Longrightarrow> array_messages exception = []"
  by (auto simp: determine_status_message_def array_messages_def
      split: exception.splits response_payload.splits option.splits message.splits)

lemma catch_throws_iff:
  "(catch Number_toString translate i18n_lang request now timestamp exception = Inl TypeError)
     = (getErrorCategory
          (fst (determine_status_message translate
                  (case i18n_lang of None \<Rightarrow> ''tr'' | Some l \<Rightarrow> l) exception))
          (Some (join '', '' (array_messages exception))) = VALIDATION
        \<and> \<not> list_all (\<lambda>m. field_of m \<notin> set object_prototype_keys)
              (array_messages exception))"
proof -
  let ?lang = "case i18n_lang of None \<Rightarrow> ''tr'' | Some l \<Rightarrow> l"
  obtain status message errorName
    where d: "determine_status_message translate ?lang exception = (status, message, errorName)"
    by (cases "determine_status_message translate ?lang exception")
  show ?thesis
  proof (cases message)
    case (MessageString s)
    with d have "array_messages exception = []"
      using determine_not_array [of translate ?lang exception] by simp
    with d MessageString show ?thesis by (simp add: catch_def Let_def)
  next
    case (MessageArray xs)
    with d have a: "array_messages exception = xs"
      using determine_array [of translate ?lang exception xs] by simp
    show ?thesis
    proof (cases "list_all (\<lambda>m. field_of m \<notin> set object_prototype_keys) xs")
      case True
      with structureValidationErrors_groups [of xs]
      obtain result where "structureValidationErrors xs = Inr result" by auto
      with d MessageArray a True show ?thesis by (simp add: catch_def Let_def)
    next
      case False
      then have "structureValidationErrors xs = Inl TypeError"
        using structure_messages_throws [of xs "[]"]
        by (simp add: structureValidationErrors_def)
      with d MessageArray a False show ?thesis by (simp add: catch_def Let_def)
    qed
  qed
qed

text \<open>
  Claim C3. A caught value that is not an \<^verbatim>\<open>Error\<close> gives status 500 and the
  localized generic message. An \<^verbatim>\<open>HttpException\<close> gives its own status, and as
  message its response when that is a string, otherwise the response's
  \<^verbatim>\<open>message\<close> field, else its \<^verbatim>\<open>error\<close> field, else \<^verbatim>\<open>Error\<close>. Any other
  \<^verbatim>\<open>Error\<close> gives status 500 and its own message text. The envelope carries
  exactly this status and message.
\<close>

theorem catch_status_and_message:
  "determine_status_message translate lang (Thrown v)
       = (500, MessageString (translate ''common.INTERNAL_SERVER_ERROR'' lang),
          ''InternalServerError'')
   \<and> determine_status_message translate lang (HttpException name status (PayloadString s))
       = (status, MessageString s, name)
   \<and> determine_status_message translate lang
         (HttpException name status (PayloadObject (Some m) err))
       = (status, m, name)
   \<and> determine_status_message translate lang
         (HttpException name status (PayloadObject None (Some e)))
       = (status, MessageString e, name)
   \<and> determine_status_message translate lang
         (HttpException name status (PayloadObject None None))
       = (status, MessageString ''Error'', name)
   \<and> determine_status_message translate lang (Error name text)
       = (500, MessageString text, name)
   \<and> (\<forall>response logs.
         catch Number_toString translate i18n_lang request now timestamp exception = Inr (response, logs) \<longrightarrow>
           er_statusCode response
             = fst (determine_status_message translate
                      (case i18n_lang of None \<Rightarrow> ''tr'' | Some l \<Rightarrow> l) exception)
           \<and> em_message (er_meta response)
             = fst (snd (determine_status_message translate
                      (case i18n_lang of None \<Rightarrow> ''tr'' | Some l \<Rightarrow> l) exception)))"
  using catch_Inr_fields(1,2) [of Number_toString translate i18n_lang request now timestamp exception]
  by (simp add: determine_status_message_def)

theorem catch_status_and_message_witness:
  "\<exists>response logs.
     catch sample_number_string sample_translate None bare_request 0 ''2026-01-01T00:00:00.000Z''
       (HttpException ''NotFoundException'' 404 (PayloadObject None (Some ''Not Found'')))
       = Inr (response, logs)
     \<and> er_statusCode response = 404
     \<and> em_message (er_meta response) = MessageString ''Not Found''"
proof -
  let ?ex = "HttpException ''NotFoundException'' 404 (PayloadObject None (Some ''Not Found''))"
  have "list_all (\<lambda>m. field_of m \<notin> set object_prototype_keys) (array_messages ?ex)"
    by (simp add: array_messages_def)
  from catch_returns [OF this, where Number_toString = sample_number_string
      and translate = sample_translate and i18n_lang = None and request = bare_request
      and now = 0 and timestamp = "''2026-01-01T00:00:00.000Z''"]
  obtain response logs where
    r: "catch sample_number_string sample_translate None bare_request 0 ''2026-01-01T00:00:00.000Z'' ?ex
          = Inr (response, logs)"
    by blast
  with catch_status_and_message [where Number_toString = sample_number_string and translate = sample_translate and i18n_lang = None
      and request = bare_request and now = 0 and timestamp = "''2026-01-01T00:00:00.000Z''"
      and exception = ?ex]
  have "er_statusCode response = 404 \<and> em_message (er_meta response) = MessageString ''Not Found''"
    by (simp add: determine_status_message_def)
  with r show ?thesis by blast
qed

text \<open>
  Claim C4 as stated takes the first token delimited by white space. The code splits at
  the space character only: a message with a tab after its first word is filed under
  everything up to the first space.
\<close>

theorem structureValidationErrors_space_only_counterexample:
  "map_sum id (em_errors \<circ> er_meta \<circ> fst)
     (catch sample_number_string sample_translate None bare_request 0 ''2026-01-01T00:00:00.000Z''
        (HttpException ''BadRequestException'' 400
           (PayloadObject (Some (MessageArray [''name'' @ CHR 0x09 # ''is required'']))
              (Some ''Bad Request''))))
     = Inr (Some [(''name'' @ CHR 0x09 # ''is'', [''name'' @ CHR 0x09 # ''is required''])])
   \<and> spec_field_of (''name'' @ CHR 0x09 # ''is required'') = ''name''
   \<and> map_of [(''name'' @ CHR 0x09 # ''is'', [''name'' @ CHR 0x09 # ''is required''])]
        (spec_field_of (''name'' @ CHR 0x09 # ''is required'')) = None"
  by code_simp

text \<open>
  Claim C4, amended. Provided no array message has, as its first space-delimited token, a
  name inherited from \<^verbatim>\<open>Object.prototype\<close>, the translator produces an envelope in
  which \<^verbatim>\<open>errors\<close> is present exactly when the category is VALIDATION and the
  message is an array; when present, it maps each message's first token delimited by the
  space character (\<^verbatim>\<open>general\<close> if that token is empty) to the messages sharing
  that token, in their original order.
\<close>

theorem catch_validation_errors:
  assumes "list_all (\<lambda>m. field_of m \<notin> set object_prototype_keys) (array_messages exception)"
  shows "\<exists>response logs.
           catch Number_toString translate i18n_lang request now timestamp exception = Inr (response, logs)
           \<and> ((em_errors (er_meta response) \<noteq> None)
                = (em_errorCategory (er_meta response) = VALIDATION
                   \<and> (\<exists>msgs. em_message (er_meta response) = MessageArray msgs)))
           \<and> (\<forall>msgs errors.
                 em_message (er_meta response) = MessageArray msgs
                 \<and> em_errors (er_meta response) = Some errors \<longrightarrow>
                   distinct (map fst errors)
                   \<and> (\<forall>field. map_of errors field =
                         (if field \<in> field_of ` set msgs
                          then Some (filter (\<lambda>m. field_of m = field) msgs)
                          else None)))
           \<and> (\<forall>msg. field_of msg =
                 (if takeWhile (\<lambda>c. c \<noteq> CHR '' '') msg = [] then ''general''
                  else takeWhile (\<lambda>c. c \<noteq> CHR '' '') msg))"
proof -
  let ?lang = "case i18n_lang of None \<Rightarrow> ''tr'' | Some l \<Rightarrow> l"
  from catch_returns [OF assms] obtain response logs where
    r: "catch Number_toString translate i18n_lang request now timestamp exception = Inr (response, logs)"
    by blast
  note ef = catch_errors_field [OF r]
  have msg: "em_message (er_meta response)
               = fst (snd (determine_status_message translate ?lang exception))"
    by (rule catch_Inr_fields(2) [OF r])
  have present: "(em_errors (er_meta response) \<noteq> None)
                = (em_errorCategory (er_meta response) = VALIDATION
                   \<and> (\<exists>msgs. em_message (er_meta response) = MessageArray msgs))"
  proof (cases "em_message (er_meta response)")
    case (MessageString s)
    with ef show ?thesis by simp
  next
    case (MessageArray xs)
    with ef show ?thesis
      by (cases "structureValidationErrors xs") (auto split: if_splits dest: sym)
  qed
  have grouped: "distinct (map fst errors)
                   \<and> (\<forall>field. map_of errors field =
                         (if field \<in> field_of ` set msgs
                          then Some (filter (\<lambda>m. field_of m = field) msgs)
                          else None))"
    if m: "em_message (er_meta response) = MessageArray msgs"
      and e: "em_errors (er_meta response) = Some errors" for msgs errors
  proof -
    from m msg have "array_messages exception = msgs"
      using determine_array [of translate ?lang exception msgs] by simp
    with assms structureValidationErrors_groups [of msgs]
    obtain result where res: "structureValidationErrors msgs = Inr result"
      "distinct (map fst result)"
      "\<forall>field. map_of result field =
                 (if field \<in> field_of ` set msgs
                  then Some (filter (\<lambda>m. field_of m = field) msgs)
                  else None)"
      by auto
    from ef m e res(1) have "errors = result" by (auto split: if_splits)
    with res show ?thesis by simp
  qed
  from r present grouped field_of_first_token show ?thesis by blast
qed

theorem catch_validation_errors_witness:
  "list_all (\<lambda>m. field_of m \<notin> set object_prototype_keys)
     (array_messages
        (HttpException ''BadRequestException'' 400
           (PayloadObject
              (Some (MessageArray [''email must be an email'', ''password too short'']))
              (Some ''Bad Request''))))
   \<and> (\<exists>response logs.
        catch sample_number_string sample_translate None bare_request 0 ''2026-01-01T00:00:00.000Z''
          (HttpException ''BadRequestException'' 400
             (PayloadObject
                (Some (MessageArray [''email must be an email'', ''password too short'']))
                (Some ''Bad Request'')))
          = Inr (response, logs)
        \<and> em_errorCategory (er_meta response) = VALIDATION
        \<and> em_errors (er_meta response)
            = Some [(''email'', [''email must be an email'']),
                    (''password'', [''password too short''])])"
proof -
  let ?ex = "HttpException ''BadRequestException'' 400
           (PayloadObject
              (Some (MessageArray [''email must be an email'', ''password too short'']))
              (Some ''Bad Request''))"
  have h: "list_all (\<lambda>m. field_of m \<notin> set object_prototype_keys) (array_messages ?ex)"
    by code_simp
  from catch_validation_errors [OF h, where Number_toString = sample_number_string and translate = sample_translate and i18n_lang = None
      and request = bare_request and now = 0 and timestamp = "''2026-01-01T00:00:00.000Z''"]
  obtain response logs where
    r: "catch sample_number_string sample_translate None bare_request 0 ''2026-01-01T00:00:00.000Z'' ?ex
          = Inr (response, logs)"
    by blast
  have v: "map_sum id ((\<lambda>m. (em_errorCategory m, em_errors m)) \<circ> er_meta \<circ> fst)
          (catch sample_number_string sample_translate None bare_request 0 ''2026-01-01T00:00:00.000Z'' ?ex)
        = Inr (VALIDATION, Some [(''email'', [''email must be an email'']),
                    (''password'', [''password too short''])])"
    by code_simp
  from r v have "em_errorCategory (er_meta response) = VALIDATION
        \<and> em_errors (er_meta response)
            = Some [(''email'', [''email must be an email'']),
                    (''password'', [''password too short''])]"
    by simp
  with h r show ?thesis by blast
qed

text \<open>
  Claim C7. On every request, on the success path and on the failure path, exactly one
  slow-request warning is logged if and only if the duration exceeds 3000 ms, next to
  the regular entry. This holds whenever the transformer returns (\<open>intercept_logs\<close>)
  and whenever the translator returns (\<open>catch_logs\<close>). For a validation message whose first token
  is a name inherited from \<^verbatim>\<open>Object.prototype\<close> the translator throws before it
  logs: a request that took 5000 ms gets no warning, where the same request with an
  ordinary message gets one.
\<close>

theorem catch_throws_before_slow_alert:
  "catch sample_number_string sample_translate None (bare_request\<lparr> req_startTime := Some 1000 \<rparr>) 6000
       ''2026-01-01T00:00:00.000Z''
       (HttpException ''BadRequestException'' 400
          (PayloadObject (Some (MessageArray [''constructor must be a string'']))
             (Some ''Bad Request'')))
     = Inl TypeError
   \<and> map_sum id (length \<circ> filter is_slow_alert \<circ> snd)
       (catch sample_number_string sample_translate None (bare_request\<lparr> req_startTime := Some 1000 \<rparr>) 6000
          ''2026-01-01T00:00:00.000Z''
          (HttpException ''BadRequestException'' 400
             (PayloadObject (Some (MessageArray [''name must be a string'']))
                (Some ''Bad Request''))))
     = Inr 1"
  by code_simp

text \<open>
  Claim C8 as stated has the two paths fall back to different locales when no
  localization context is active. Both fall back to \<^verbatim>\<open>tr\<close>.
\<close>

theorem fallback_locale_counterexample:
  "map_sum id (sm_lang \<circ> gr_meta \<circ> fst)
        (intercept sample_number_string failing_stringify None bare_request 200 0 0
           ''2026-01-01T00:00:00.000Z'' JNull)
       = Inr ''tr''
   \<and> map_sum id (em_lang \<circ> er_meta \<circ> fst)
        (catch sample_number_string sample_translate None bare_request 0
           ''2026-01-01T00:00:00.000Z'' (Thrown JNull))
       = Inr ''tr''"
  by code_simp

text \<open>
  Claim C8, amended. When no localization context is active, the success transformer and
  the exception translator use the same fallback locale, \<^verbatim>\<open>tr\<close>: every envelope
  either of them produces carries it.
\<close>

theorem fallback_locale_same:
  "(\<forall>response logs.
      intercept Number_toString JSON_stringify None request statusCode now_entry now_result
        timestamp data = Inr (response, logs) \<longrightarrow>
        sm_lang (gr_meta response) = ''tr'')
   \<and> (\<forall>response logs.
         catch Number_toString translate None request now timestamp exception
           = Inr (response, logs) \<longrightarrow>
           em_lang (er_meta response) = ''tr'')"
  using catch_Inr_fields(3) [of Number_toString translate None request now timestamp exception]
    intercept_fields(3) [of Number_toString JSON_stringify None request statusCode now_entry
      now_result timestamp data]
  by simp

theorem fallback_locale_same_witness:
  "(\<exists>response logs.
      intercept sample_number_string failing_stringify None bare_request 200 0 0
        ''2026-01-01T00:00:00.000Z'' JNull = Inr (response, logs)
      \<and> sm_lang (gr_meta response) = ''tr'')
   \<and> (\<exists>response logs.
        catch sample_number_string sample_translate None bare_request 0
          ''2026-01-01T00:00:00.000Z'' (Thrown JNull) = Inr (response, logs)
        \<and> em_lang (er_meta response) = ''tr'')"
proof -
  note same = fallback_locale_same [where Number_toString = sample_number_string
      and JSON_stringify = failing_stringify and translate = sample_translate
      and request = bare_request and statusCode = 200 and now_entry = 0 and now_result = 0
      and now = 0 and timestamp = "''2026-01-01T00:00:00.000Z''" and data = JNull
      and exception = "Thrown JNull"]
  have "formatMessage sample_number_string failing_stringify (get_message JNull)
          = Inr ''Request successful''"
    by (simp add: formatMessage_def get_message_def)
  moreover have "req_method bare_request \<notin> set [''POST'', ''PUT'', ''PATCH'']
         \<or> \<not> is_object (req_body bare_request)"
    by (simp add: bare_request_def)
  ultimately obtain response logs where
    s: "intercept sample_number_string failing_stringify None bare_request 200 0 0
          ''2026-01-01T00:00:00.000Z'' JNull = Inr (response, logs)"
    using intercept_returns [where Number_toString = sample_number_string
        and JSON_stringify = failing_stringify and i18n_lang = None and request = bare_request
        and statusCode = 200 and now_entry = 0 and now_result = 0
        and timestamp = "''2026-01-01T00:00:00.000Z''" and data = JNull]
    by blast
  with same have s_lang: "sm_lang (gr_meta response) = ''tr''" by blast
  have "list_all (\<lambda>m. field_of m \<notin> set object_prototype_keys) (array_messages (Thrown JNull))"
    by (simp add: array_messages_def)
  from catch_returns [OF this, where Number_toString = sample_number_string
      and translate = sample_translate and i18n_lang = None and request = bare_request
      and now = 0 and timestamp = "''2026-01-01T00:00:00.000Z''"]
  obtain response' logs' where
    r: "catch sample_number_string sample_translate None bare_request 0
          ''2026-01-01T00:00:00.000Z'' (Thrown JNull) = Inr (response', logs')"
    by blast
  with same have "em_lang (er_meta response') = ''tr''" by blast
  with r s s_lang show ?thesis by blast
qed

lemma logByCategory_duration:
  "log_duration (logByCategory status category exception context) = log_duration context"
  by (simp add: logByCategory_def)

lemma catch_log_durations:
  assumes "catch Number_toString translate i18n_lang request now timestamp exception = Inr (response, logs)"
  shows "list_all
           (\<lambda>e. log_duration e
                  = Number_toString
                      (case req_startTime request of
                         None \<Rightarrow> 0
                       | Some t \<Rightarrow> if t = 0 then 0 else now - t) @ ''ms'')
           logs"
  using assms
  by (auto simp: catch_def Let_def logByCategory_duration
      split: prod.splits sum.splits message.splits if_splits)

lemma catch_unstamped:
  assumes "catch Number_toString translate i18n_lang request now timestamp exception = Inr (response, logs)"
    and "req_requestId request = None" and "req_correlationId request = None"
    and "req_startTime request = None"
  shows "em_requestId (er_meta response) = ''N/A''"
    and "em_correlationId (er_meta response) = ''N/A''"
    and "filter is_slow_alert logs = []"
    and "list_all (\<lambda>e. log_duration e = Number_toString 0 @ ''ms'') logs"
proof -
  from catch_Inr_fields(4,5) [OF assms(1)] assms(2,3)
  show "em_requestId (er_meta response) = ''N/A''"
    and "em_correlationId (er_meta response) = ''N/A''"
    by (simp_all add: or_else_def)
  from catch_logs(1) [OF assms(1)] assms(4)
  show "filter is_slow_alert logs = []" by simp
  from catch_log_durations [OF assms(1)] assms(4)
  show "list_all (\<lambda>e. log_duration e = Number_toString 0 @ ''ms'') logs"
    by simp
qed

text \<open>
  Claim C10. For a request the correlation middleware never stamped, the translator still
  produces an envelope whose request id and correlation id are \<^verbatim>\<open>N/A\<close>, and
  without a start time the duration is 0 ms, so no slow-request warning is logged. The
  fallbacks hold whenever the translator returns (\<open>catch_unstamped\<close>). For a
  validation message whose first token is a name inherited from
  \<^verbatim>\<open>Object.prototype\<close> it throws and produces no envelope, where the same request
  with an ordinary message gets one.
\<close>

theorem catch_unstamped_throws:
  "catch sample_number_string sample_translate None bare_request 6000 ''2026-01-01T00:00:00.000Z''
       (HttpException ''BadRequestException'' 400
          (PayloadObject (Some (MessageArray [''toString should not be empty'']))
             (Some ''Bad Request'')))
     = Inl TypeError
   \<and> map_sum id (em_requestId \<circ> er_meta \<circ> fst)
       (catch sample_number_string sample_translate None bare_request 6000 ''2026-01-01T00:00:00.000Z''
          (HttpException ''BadRequestException'' 400
             (PayloadObject (Some (MessageArray [''name should not be empty'']))
                (Some ''Bad Request''))))
     = Inr ''N/A''"
  by code_simp

end
